theory Spec2Isabelle
  imports Main
begin

section \<open>The interactive MKV track editor \<^verbatim>\<open>mkv_edit.py\<close>\<close>

text \<open>
  A shallow embedding of \<^verbatim>\<open>src/mkv/mkv_edit.py\<close>: the track presenter
  (\<^verbatim>\<open>display_tracks\<close>), the selection engine (\<^verbatim>\<open>select_tracks_to_keep\<close>), the
  property editor (\<^verbatim>\<open>modify_track_properties\<close>) and the command synthesizer
  (\<^verbatim>\<open>build_mkvmerge_command\<close>).

  Conventions of the embedding.
  \<^item> A Python \<^verbatim>\<open>str\<close> is a HOL \<open>string\<close>, one \<open>char\<close> per code point; code points
    above 255 are outside the model. The four localised literals the presenter prints
    lie outside that range and are parameters (\<open>labels\<close>).
  \<^item> \<^verbatim>\<open>input()\<close> reads from a finite list of lines; on the empty list it raises
    \<^verbatim>\<open>EOFError\<close>. What \<^verbatim>\<open>print\<close> writes is not modelled, except the table rows of
    the presenter.
  \<^item> Track dictionaries are mutable objects shared between lists. The selection engine
    returns references (positions in \<^verbatim>\<open>all_tracks\<close>), and the property editor works on
    a store from references to tracks.
\<close>

subsection \<open>Python built-ins used by the program\<close>

datatype error = EOFError | TypeError

text \<open>The characters \<^verbatim>\<open>str.strip()\<close> removes, among the code points up to 255.\<close>

definition is_space :: "char \<Rightarrow> bool" where
  "is_space c = ((of_char c :: nat) \<in> {9, 10, 11, 12, 13, 28, 29, 30, 31, 32, 133, 160})"

definition strip :: "string \<Rightarrow> string" where
  "strip s = rev (dropWhile is_space (rev (dropWhile is_space s)))"

text \<open>\<^verbatim>\<open>str.lower()\<close> on the code points up to 255: A-Z and the accented capitals.\<close>

definition lower_char :: "char \<Rightarrow> char" where
  "lower_char c =
     (let n = (of_char c :: nat)
      in if (65 \<le> n \<and> n \<le> 90) \<or> (192 \<le> n \<and> n \<le> 214) \<or> (216 \<le> n \<and> n \<le> 222)
         then char_of (n + 32) else c)"

definition lower :: "string \<Rightarrow> string" where
  "lower s = map lower_char s"

text \<open>
  \<^verbatim>\<open>str.capitalize()\<close> for ASCII letters (the track types of the multiplexer are ASCII
  words); other characters are left as they are.
\<close>

definition upper_char :: "char \<Rightarrow> char" where
  "upper_char c =
     (let n = (of_char c :: nat)
      in if 97 \<le> n \<and> n \<le> 122 then char_of (n - 32) else c)"

definition capitalize :: "string \<Rightarrow> string" where
  "capitalize s = (case s of [] \<Rightarrow> [] | c # cs \<Rightarrow> upper_char c # lower cs)"

text \<open>\<^verbatim>\<open>s.split(',')\<close>: never empty, one more piece than there are commas.\<close>

fun split_comma :: "string \<Rightarrow> string list" where
  "split_comma [] = [[]]"
| "split_comma (c # cs) =
     (if c = CHR '','' then [] # split_comma cs
      else (case split_comma cs of [] \<Rightarrow> [[c]] | t # ts \<Rightarrow> (c # t) # ts))"

text \<open>\<^verbatim>\<open>sep.join(xs)\<close>.\<close>

fun join :: "string \<Rightarrow> string list \<Rightarrow> string" where
  "join sep [] = []"
| "join sep [x] = x"
| "join sep (x # y # ys) = x @ sep @ join sep (y # ys)"

text \<open>\<^verbatim>\<open>str(n)\<close> for an integer: decimal digits, a minus sign when negative.\<close>

definition digit_char :: "nat \<Rightarrow> char" where
  "digit_char d = ''0123456789'' ! d"

function str_nat :: "nat \<Rightarrow> string" where
  "str_nat n = (if n < 10 then [digit_char n] else str_nat (n div 10) @ [digit_char (n mod 10)])"
  by pat_completeness auto
termination
  by (relation "measure (\<lambda>n. n)") auto

declare str_nat.simps [simp del]

definition str_int :: "int \<Rightarrow> string" where
  "str_int i = (if i < 0 then CHR ''-'' # str_nat (nat (- i)) else str_nat (nat i))"

text \<open>
  \<^verbatim>\<open>int(s)\<close> on a string that \<^verbatim>\<open>strip()\<close> has already trimmed (both call sites pass
  such a string): an optional sign, then decimal digits, single underscores allowed
  between digits. \<open>None\<close> is \<^verbatim>\<open>ValueError\<close>. The interpreter's optional limit on
  the number of digits is not modelled.
\<close>

definition is_digit :: "char \<Rightarrow> bool" where
  "is_digit c = (48 \<le> (of_char c :: nat) \<and> (of_char c :: nat) \<le> 57)"

definition digit_val :: "char \<Rightarrow> nat" where
  "digit_val c = of_char c - 48"

fun py_digits :: "nat \<Rightarrow> string \<Rightarrow> nat option" where
  "py_digits acc [] = Some acc"
| "py_digits acc (c # cs) =
     (if is_digit c then py_digits (acc * 10 + digit_val c) cs
      else if c = CHR ''_'' then
        (case cs of
           [] \<Rightarrow> None
         | d # ds \<Rightarrow> if is_digit d then py_digits (acc * 10 + digit_val d) ds else None)
      else None)"

definition py_nat :: "string \<Rightarrow> nat option" where
  "py_nat s = (case s of [] \<Rightarrow> None
               | c # cs \<Rightarrow> if is_digit c then py_digits (digit_val c) cs else None)"

definition py_int :: "string \<Rightarrow> int option" where
  "py_int s =
     (case s of
        [] \<Rightarrow> None
      | c # cs \<Rightarrow>
          if c = CHR ''-'' then map_option (\<lambda>n. - int n) (py_nat cs)
          else if c = CHR ''+'' then map_option int (py_nat cs)
          else map_option int (py_nat s))"

text \<open>\<^verbatim>\<open>format(s, '<w')\<close>: pad on the right with spaces up to width \<open>w\<close>.\<close>

definition ljust :: "nat \<Rightarrow> string \<Rightarrow> string" where
  "ljust w s = s @ replicate (w - length s) CHR '' ''"

subsection \<open>Data model\<close>

text \<open>
  The values the multiplexer's JSON puts into a track's \<^verbatim>\<open>properties\<close>: null,
  booleans, integers and strings. A track is the dictionary with the keys the program
  reads; \<^verbatim>\<open>properties\<close> is itself a dictionary, where the absence of a key differs from
  a key bound to \<^verbatim>\<open>None\<close>.
\<close>

datatype jvalue = JNull | JBool bool | JNum int | JStr string

record track =
  track_id :: int
  track_type :: string
  codec :: string
  properties :: "string \<rightharpoonup> jvalue"

text \<open>The probe's result: \<^verbatim>\<open>original_mkv_data\<close>, of which only the key \<^verbatim>\<open>tracks\<close> is read.\<close>

record mkv_data =
  tracks :: "track list option"

text \<open>\<^verbatim>\<open>d.get(k)\<close>: \<^verbatim>\<open>None\<close> when the key is absent.\<close>

definition py_get :: "(string \<rightharpoonup> jvalue) \<Rightarrow> string \<Rightarrow> jvalue" where
  "py_get d k = (case d k of None \<Rightarrow> JNull | Some v \<Rightarrow> v)"

text \<open>Truth value of an object in a condition.\<close>

fun truthy :: "jvalue \<Rightarrow> bool" where
  "truthy JNull = False"
| "truthy (JBool b) = b"
| "truthy (JNum n) = (n \<noteq> 0)"
| "truthy (JStr s) = (s \<noteq> [])"

text \<open>What an f-string writes for \<^verbatim>\<open>{v}\<close>.\<close>

fun py_str :: "jvalue \<Rightarrow> string" where
  "py_str JNull = ''None''"
| "py_str (JBool b) = (if b then ''True'' else ''False'')"
| "py_str (JNum n) = str_int n"
| "py_str (JStr s) = s"

subsection \<open>Command synthesizer: \<^verbatim>\<open>build_mkvmerge_command\<close>\<close>

text \<open>
  The body of the loop over \<^verbatim>\<open>final_tracks\<close> (lines 306-320): the arguments one track
  appends to \<^verbatim>\<open>command\<close>.
\<close>

definition track_property_args :: "track \<Rightarrow> string list" where
  "track_property_args track =
     (let track_id_str = str_int (track_id track);
          track_name_to_set = py_get (properties track) ''track_name'';
          name_args =
            (if track_name_to_set \<noteq> JNull
             then [''--track-name'', track_id_str @ '':'' @ py_str track_name_to_set]
             else if properties track ''track_name'' = None
             then [''--track-name'', track_id_str @ '':'']
             else []);
          is_default_explicitly_set = (properties track ''default_track'' \<noteq> None);
          is_default = (case properties track ''default_track'' of
                          None \<Rightarrow> False | Some v \<Rightarrow> truthy v);
          default_args =
            (if is_default_explicitly_set
             then [''--default-track'', track_id_str @ '':'' @ (if is_default then ''1'' else ''0'')]
             else [])
      in name_args @ default_args)"

definition build_mkvmerge_command ::
    "string \<Rightarrow> string \<Rightarrow> track list \<Rightarrow> mkv_data \<Rightarrow> string list" where
  "build_mkvmerge_command input_filepath output_filepath final_tracks original_mkv_data =
     (let command = [''mkvmerge'', ''-q''];
          command = command @ [''-o'', output_filepath];
          original_tracks_info =
            (case tracks original_mkv_data of None \<Rightarrow> [] | Some ts \<Rightarrow> ts);
          video_track_ids =
            map (\<lambda>t. str_int (track_id t)) (filter (\<lambda>t. track_type t = ''video'') final_tracks);
          audio_track_ids =
            map (\<lambda>t. str_int (track_id t)) (filter (\<lambda>t. track_type t = ''audio'') final_tracks);
          subtitle_track_ids =
            map (\<lambda>t. str_int (track_id t))
              (filter (\<lambda>t. track_type t = ''subtitles'') final_tracks);
          command =
            (if video_track_ids \<noteq> []
             then command @ [''--video-tracks'', join '','' video_track_ids]
             else if list_ex (\<lambda>t. track_type t = ''video'') original_tracks_info
             then command @ [''--no-video'']
             else command);
          command =
            (if audio_track_ids \<noteq> []
             then command @ [''--audio-tracks'', join '','' audio_track_ids]
             else if list_ex (\<lambda>t. track_type t = ''audio'') original_tracks_info
             then command @ [''--no-audio'']
             else command);
          command =
            (if subtitle_track_ids \<noteq> []
             then command @ [''--subtitle-tracks'', join '','' subtitle_track_ids]
             else if list_ex (\<lambda>t. track_type t = ''subtitles'') original_tracks_info
             then command @ [''--no-subtitles'']
             else command);
          command = foldl (\<lambda>command track. command @ track_property_args track)
                      command final_tracks;
          command = command @ [input_filepath]
      in command)"

subsection \<open>Properties of the command synthesizer\<close>


definition has_arg :: "string list \<Rightarrow> string \<Rightarrow> string \<Rightarrow> bool" where
  "has_arg args flag v = ((flag, v) \<in> set (zip args (tl args)))"

definition type_flags :: "(string \<times> string \<times> string) list" where
  "type_flags =
     [(''video'', ''--video-tracks'', ''--no-video''),
      (''audio'', ''--audio-tracks'', ''--no-audio''),
      (''subtitles'', ''--subtitle-tracks'', ''--no-subtitles'')]"

definition ids_of_type :: "string \<Rightarrow> track list \<Rightarrow> string list" where
  "ids_of_type ty final_tracks =
     map (\<lambda>t. str_int (track_id t)) (filter (\<lambda>t. track_type t = ty) final_tracks)"

definition original_has_type :: "string \<Rightarrow> mkv_data \<Rightarrow> bool" where
  "original_has_type ty original_mkv_data =
     (case tracks original_mkv_data of None \<Rightarrow> False
      | Some ts \<Rightarrow> list_ex (\<lambda>t. track_type t = ty) ts)"

definition filter_args :: "string \<Rightarrow> string \<Rightarrow> string \<Rightarrow> track list \<Rightarrow> mkv_data \<Rightarrow> string list" where
  "filter_args ty incl excl final_tracks original_mkv_data =
     (if ids_of_type ty final_tracks \<noteq> [] then [incl, join '','' (ids_of_type ty final_tracks)]
      else if original_has_type ty original_mkv_data then [excl] else [])"

lemma foldl_append_args: "foldl (\<lambda>command x. command @ f x) command xs = command @ concat (map f xs)"
  by (induction xs arbitrary: command) simp_all

lemma build_command_shape:
  "build_mkvmerge_command inp out final orig =
     [''mkvmerge'', ''-q'', ''-o'', out]
     @ filter_args ''video'' ''--video-tracks'' ''--no-video'' final orig
     @ filter_args ''audio'' ''--audio-tracks'' ''--no-audio'' final orig
     @ filter_args ''subtitles'' ''--subtitle-tracks'' ''--no-subtitles'' final orig
     @ concat (map track_property_args final) @ [inp]"
  by (simp add: build_mkvmerge_command_def Let_def foldl_append_args filter_args_def
      ids_of_type_def original_has_type_def split: option.split)

lemma digit_char_is_digit: "d < 10 \<Longrightarrow> is_digit (digit_char d)"
proof -
  assume "d < 10"
  then have "d \<in> {0, 1, 2, 3, 4, 5, 6, 7, 8, 9}" by auto
  then show ?thesis
    by (elim insertE emptyE) (simp_all add: digit_char_def is_digit_def)
qed

lemma str_nat_digits: "c \<in> set (str_nat n) \<Longrightarrow> is_digit c"
proof (induction n rule: str_nat.induct)
  case (1 n)
  show ?case
  proof (cases "n < 10")
    case True
    with "1.prems" have "c = digit_char n" by (subst (asm) str_nat.simps) simp
    with True show ?thesis by (simp add: digit_char_is_digit)
  next
    case False
    with "1.prems" have "c \<in> set (str_nat (n div 10)) \<or> c = digit_char (n mod 10)"
      by (subst (asm) str_nat.simps) auto
    then show ?thesis
    proof
      assume "c \<in> set (str_nat (n div 10))"
      with "1.IH"[OF False] show ?thesis .
    next
      assume "c = digit_char (n mod 10)"
      then show ?thesis by (simp add: digit_char_is_digit)
    qed
  qed
qed

lemma str_int_chars: "c \<in> set (str_int i) \<Longrightarrow> is_digit c \<or> c = CHR ''-''"
  unfolding str_int_def by (cases "i < 0") (auto dest: str_nat_digits)

lemma join_chars: "c \<in> set (join sep xs) \<Longrightarrow> c \<in> set sep \<or> (\<exists>x\<in>set xs. c \<in> set x)"
  by (induction sep xs rule: join.induct) auto


lemma join_ids_no_i: "CHR ''i'' \<notin> set (join '','' (ids_of_type ty final))"
proof
  assume "CHR ''i'' \<in> set (join '','' (ids_of_type ty final))"
  from join_chars[OF this] obtain x where "x \<in> set (ids_of_type ty final)" "CHR ''i'' \<in> set x"
    by auto
  then obtain i where "CHR ''i'' \<in> set (str_int i)" by (auto simp: ids_of_type_def)
  from str_int_chars[OF this] show False by (simp add: is_digit_def)
qed

definition filter_flag :: "string \<Rightarrow> bool" where
  "filter_flag f = (f \<in> set (map (fst \<circ> snd) type_flags) \<or> f \<in> set (map (snd \<circ> snd) type_flags))"

lemma filter_flag_cases:
  "filter_flag f \<longleftrightarrow> f = ''--video-tracks'' \<or> f = ''--no-video'' \<or> f = ''--audio-tracks'' \<or>
     f = ''--no-audio'' \<or> f = ''--subtitle-tracks'' \<or> f = ''--no-subtitles''"
  by (auto simp: filter_flag_def type_flags_def)

lemma filter_flag_has_i: "filter_flag f \<Longrightarrow> CHR ''i'' \<in> set f"
  unfolding filter_flag_cases by (elim disjE) simp_all

lemma filter_flag_no_colon: "filter_flag f \<Longrightarrow> CHR '':'' \<notin> set f"
  unfolding filter_flag_cases by (elim disjE) simp_all

lemma filter_flag_not_property: "filter_flag f \<Longrightarrow> f \<noteq> ''--track-name'' \<and> f \<noteq> ''--default-track''"
  unfolding filter_flag_cases by (elim disjE) simp_all

lemma property_args_elems:
  "x \<in> set (track_property_args t) \<Longrightarrow>
     x = ''--track-name'' \<or> x = ''--default-track'' \<or> CHR '':'' \<in> set x"
  by (auto simp: track_property_args_def Let_def split: if_splits)

lemma filter_flag_notin_property_args:
  "filter_flag f \<Longrightarrow> f \<notin> set (concat (map track_property_args final))"
proof
  assume f: "filter_flag f" and "f \<in> set (concat (map track_property_args final))"
  then obtain t where "f \<in> set (track_property_args t)" by auto
  from property_args_elems[OF this] filter_flag_not_property[OF f] filter_flag_no_colon[OF f]
  show False by blast
qed

lemma filter_flag_not_ids: "filter_flag f \<Longrightarrow> f \<noteq> join '','' (ids_of_type ty final)"
  using filter_flag_has_i join_ids_no_i by metis

lemma filter_args_elems:
  "x \<in> set (filter_args ty incl excl final orig) \<Longrightarrow>
     x = incl \<or> x = excl \<or> x = join '','' (ids_of_type ty final)"
  by (auto simp: filter_args_def split: if_splits)

lemma filter_flag_notin_other:
  "filter_flag f \<Longrightarrow> f \<noteq> incl \<Longrightarrow> f \<noteq> excl \<Longrightarrow> f \<notin> set (filter_args ty incl excl final orig)"
  using filter_args_elems filter_flag_not_ids by blast

lemma has_arg_iff:
  "has_arg args flag v \<longleftrightarrow> (\<exists>i. Suc i < length args \<and> args ! i = flag \<and> args ! Suc i = v)"
proof
  assume "has_arg args flag v"
  then obtain i where "i < length args" "i < length (tl args)" "args ! i = flag" "tl args ! i = v"
    unfolding has_arg_def in_set_zip by auto
  then show "\<exists>i. Suc i < length args \<and> args ! i = flag \<and> args ! Suc i = v"
    by (intro exI[of _ i]) (auto simp: nth_tl)
next
  assume "\<exists>i. Suc i < length args \<and> args ! i = flag \<and> args ! Suc i = v"
  then obtain i where i: "Suc i < length args" "args ! i = flag" "args ! Suc i = v" by blast
  then have "(flag, v) = zip args (tl args) ! i" "i < length (zip args (tl args))"
    by (auto simp: nth_tl)
  then show "has_arg args flag v" unfolding has_arg_def by (metis nth_mem)
qed

lemma has_arg_mid: "has_arg (pre @ flag # v # post) flag v"
  unfolding has_arg_iff by (intro exI[of _ "length pre"]) (simp add: nth_append)

lemma filter_segment:
  fixes pre post :: "string list" and ty :: string and final :: "track list" and orig :: mkv_data
  assumes "incl \<notin> set pre" "incl \<notin> set post" "excl \<notin> set pre" "excl \<notin> set post"
    and "incl \<noteq> excl" "filter_flag incl" "filter_flag excl"
  defines "args \<equiv> pre @ filter_args ty incl excl final orig @ post"
  shows "if ids_of_type ty final \<noteq> []
         then has_arg args incl (join '','' (ids_of_type ty final)) \<and> count_list args incl = 1
              \<and> excl \<notin> set args
         else if original_has_type ty orig
         then excl \<in> set args \<and> incl \<notin> set args
         else excl \<notin> set args \<and> incl \<notin> set args"
proof -
  have ne: "incl \<noteq> join '','' (ids_of_type ty final)" "excl \<noteq> join '','' (ids_of_type ty final)"
    using assms(6,7) filter_flag_not_ids by blast+
  show ?thesis
  proof (cases "ids_of_type ty final \<noteq> []")
    case True
    then have a: "args = pre @ incl # join '','' (ids_of_type ty final) # post"
      by (simp add: args_def filter_args_def)
    have "has_arg args incl (join '','' (ids_of_type ty final))"
      unfolding a by (rule has_arg_mid)
    moreover have "count_list args incl = 1"
      using assms(1,2) ne by (simp add: a)
    moreover have "excl \<notin> set args"
      using assms(3,4,5) ne by (auto simp: a)
    ultimately show ?thesis using True by simp
  next
    case False
    then show ?thesis using assms(1-5) by (auto simp: args_def filter_args_def)
  qed
qed

text \<open>
  Claim C1. Let \<open>args\<close> be the arguments the synthesizer puts between the fixed prefix
  \<^verbatim>\<open>mkvmerge -q -o <output>\<close> and the trailing input path. For each of the three track
  types: when \<open>final_tracks\<close> has a track of the type, \<open>args\<close> holds the inclusion flag
  exactly once, followed by the comma-joined ids of those tracks in their order in
  \<open>final_tracks\<close>, and does not hold the exclusion flag; otherwise, when the original track
  list has a track of the type, \<open>args\<close> holds the exclusion flag and not the inclusion
  flag; otherwise it holds neither.
\<close>

theorem build_command_track_filters:
  assumes "(ty, incl, excl) \<in> set type_flags"
  shows "let cmd = build_mkvmerge_command inp out final orig;
             args = butlast (drop 4 cmd);
             ids = ids_of_type ty final
         in cmd = [''mkvmerge'', ''-q'', ''-o'', out] @ args @ [inp] \<and>
            (if ids \<noteq> []
             then has_arg args incl (join '','' ids) \<and> count_list args incl = 1 \<and> excl \<notin> set args
             else if original_has_type ty orig
             then excl \<in> set args \<and> incl \<notin> set args
             else excl \<notin> set args \<and> incl \<notin> set args)"
proof -
  define V where "V = filter_args ''video'' ''--video-tracks'' ''--no-video'' final orig"
  define A where "A = filter_args ''audio'' ''--audio-tracks'' ''--no-audio'' final orig"
  define S where "S = filter_args ''subtitles'' ''--subtitle-tracks'' ''--no-subtitles'' final orig"
  define P where "P = concat (map track_property_args final)"
  define args where "args = butlast (drop 4 (build_mkvmerge_command inp out final orig))"
  have cmd: "build_mkvmerge_command inp out final orig
               = [''mkvmerge'', ''-q'', ''-o'', out] @ (V @ A @ S @ P) @ [inp]"
    by (simp add: build_command_shape V_def A_def S_def P_def)
  have args: "args = V @ A @ S @ P"
    unfolding args_def cmd by (simp add: butlast_append)
  have ff: "filter_flag ''--video-tracks''" "filter_flag ''--no-video''"
    "filter_flag ''--audio-tracks''" "filter_flag ''--no-audio''"
    "filter_flag ''--subtitle-tracks''" "filter_flag ''--no-subtitles''"
    by (simp_all add: filter_flag_cases)
  have P: "\<And>f. filter_flag f \<Longrightarrow> f \<notin> set P"
    unfolding P_def by (rule filter_flag_notin_property_args)
  from assms consider
      (video) "ty = ''video''" "incl = ''--video-tracks''" "excl = ''--no-video''"
    | (audio) "ty = ''audio''" "incl = ''--audio-tracks''" "excl = ''--no-audio''"
    | (subs) "ty = ''subtitles''" "incl = ''--subtitle-tracks''" "excl = ''--no-subtitles''"
    by (auto simp: type_flags_def)
  then have "if ids_of_type ty final \<noteq> []
         then has_arg args incl (join '','' (ids_of_type ty final)) \<and> count_list args incl = 1
              \<and> excl \<notin> set args
         else if original_has_type ty orig
         then excl \<in> set args \<and> incl \<notin> set args
         else excl \<notin> set args \<and> incl \<notin> set args"
  proof cases
    case video
    have e: "args = [] @ filter_args ty incl excl final orig @ (A @ S @ P)"
      by (simp add: args V_def video)
    have n: "incl \<notin> set (A @ S @ P)" "excl \<notin> set (A @ S @ P)"
      using P ff by (simp_all add: video A_def S_def filter_flag_notin_other)
    show ?thesis unfolding e
      by (rule filter_segment) (use n ff in \<open>simp_all add: video\<close>)
  next
    case audio
    have e: "args = V @ filter_args ty incl excl final orig @ (S @ P)"
      by (simp add: args A_def audio)
    have n: "incl \<notin> set (S @ P)" "excl \<notin> set (S @ P)" "incl \<notin> set V" "excl \<notin> set V"
      using P ff by (simp_all add: audio V_def S_def filter_flag_notin_other)
    show ?thesis unfolding e
      by (rule filter_segment) (use n ff in \<open>simp_all add: audio\<close>)
  next
    case subs
    have e: "args = (V @ A) @ filter_args ty incl excl final orig @ P"
      by (simp add: args S_def subs)
    have n: "incl \<notin> set P" "excl \<notin> set P" "incl \<notin> set (V @ A)" "excl \<notin> set (V @ A)"
      using P ff by (simp_all add: subs V_def A_def filter_flag_notin_other)
    show ?thesis unfolding e
      by (rule filter_segment) (use n ff in \<open>simp_all add: subs\<close>)
  qed
  moreover have "build_mkvmerge_command inp out final orig
               = [''mkvmerge'', ''-q'', ''-o'', out] @ args @ [inp]"
    using cmd args by simp
  ultimately show ?thesis unfolding Let_def args_def[symmetric] by (rule conjI[rotated])
qed





lemma has_arg_appendI1: "has_arg xs f v \<Longrightarrow> has_arg (xs @ ys) f v"
proof -
  assume "has_arg xs f v"
  then obtain i where "Suc i < length xs" "xs ! i = f" "xs ! Suc i = v"
    unfolding has_arg_iff by blast
  then show ?thesis unfolding has_arg_iff
    by (intro exI[of _ i]) (simp add: nth_append)
qed

lemma has_arg_appendI2: "has_arg ys f v \<Longrightarrow> has_arg (xs @ ys) f v"
proof -
  assume "has_arg ys f v"
  then obtain i where "Suc i < length ys" "ys ! i = f" "ys ! Suc i = v"
    unfolding has_arg_iff by blast
  then show ?thesis unfolding has_arg_iff
    by (intro exI[of _ "length xs + i"]) (simp add: nth_append)
qed

lemma has_arg_in_set: "has_arg xs f v \<Longrightarrow> f \<in> set xs"
proof -
  assume "has_arg xs f v"
  then obtain i where "Suc i < length xs" "xs ! i = f"
    unfolding has_arg_iff by blast
  then have "i < length xs" by simp
  with \<open>xs ! i = f\<close> show ?thesis using nth_mem by blast
qed

lemma has_arg_concat:
  "t \<in> set final \<Longrightarrow> has_arg (g t) f v \<Longrightarrow> has_arg (concat (map g final)) f v"
proof -
  assume "t \<in> set final" and h: "has_arg (g t) f v"
  then obtain l1 l2 where "final = l1 @ t # l2" by (meson split_list)
  then have e: "concat (map g final) = concat (map g l1) @ (g t @ concat (map g l2))" by simp
  show ?thesis unfolding e
    by (rule has_arg_appendI2, rule has_arg_appendI1, rule h)
qed


lemma has_arg_appendE:
  assumes "has_arg (xs @ ys) f v"
  shows "has_arg xs f v \<or> has_arg ys f v \<or> (xs \<noteq> [] \<and> last xs = f \<and> ys \<noteq> [] \<and> hd ys = v)"
proof -
  from assms obtain i where i: "Suc i < length (xs @ ys)" "(xs @ ys) ! i = f" "(xs @ ys) ! Suc i = v"
    unfolding has_arg_iff by blast
  consider "Suc i < length xs" | "Suc i = length xs" | "length xs \<le> i" by linarith
  then show ?thesis
  proof cases
    case 1
    with i have "has_arg xs f v" unfolding has_arg_iff
      by (intro exI[of _ i]) (simp add: nth_append)
    then show ?thesis by simp
  next
    case 2
    then have "xs \<noteq> []" by auto
    moreover from 2 i have "ys \<noteq> []" by auto
    moreover from 2 have "i = length xs - 1" by simp
    with 2 i \<open>xs \<noteq> []\<close> have "last xs = f"
      by (simp add: nth_append last_conv_nth)
    moreover from 2 i \<open>ys \<noteq> []\<close> have "hd ys = v"
      by (simp add: nth_append hd_conv_nth)
    ultimately show ?thesis by simp
  next
    case 3
    with i have "has_arg ys f v" unfolding has_arg_iff
      by (intro exI[of _ "i - length xs"]) (auto simp: nth_append Suc_diff_le)
    then show ?thesis by simp
  qed
qed



definition name_args :: "track \<Rightarrow> string list" where
  "name_args t =
     (case properties t ''track_name'' of
        None \<Rightarrow> [''--track-name'', str_int (track_id t) @ '':'']
      | Some x \<Rightarrow> if x = JNull then []
                 else [''--track-name'', str_int (track_id t) @ '':'' @ py_str x])"

definition default_args :: "track \<Rightarrow> string list" where
  "default_args t =
     (case properties t ''default_track'' of
        None \<Rightarrow> []
      | Some x \<Rightarrow> [''--default-track'', str_int (track_id t) @ '':'' @ (if truthy x then ''1'' else ''0'')])"

lemma track_property_args_split: "track_property_args t = name_args t @ default_args t"
  by (simp add: track_property_args_def name_args_def default_args_def Let_def py_get_def
      split: option.split)

lemma name_args_last: "name_args t \<noteq> [] \<Longrightarrow> CHR '':'' \<in> set (last (name_args t))"
  by (simp add: name_args_def split: option.splits if_splits)

lemma default_args_last: "default_args t \<noteq> [] \<Longrightarrow> CHR '':'' \<in> set (last (default_args t))"
  by (simp add: default_args_def split: option.splits)

lemma property_args_last:
  "track_property_args t \<noteq> [] \<Longrightarrow> CHR '':'' \<in> set (last (track_property_args t))"
  unfolding track_property_args_split
  using name_args_last[of t] default_args_last[of t]
  by (cases "default_args t = []") simp_all



lemma has_arg_concat_property_args:
  assumes "has_arg (concat (map track_property_args final)) f v" and "CHR '':'' \<notin> set f"
  shows "\<exists>u\<in>set final. has_arg (track_property_args u) f v"
  using assms(1)
proof (induction final)
  case Nil
  then show ?case by (simp add: has_arg_def)
next
  case (Cons t ts)
  then have "has_arg (track_property_args t @ concat (map track_property_args ts)) f v" by simp
  from has_arg_appendE[OF this] property_args_last[of t] assms(2) Cons.IH
  show ?case by auto
qed




lemma neq_by_char: "c \<in> set s \<Longrightarrow> c \<notin> set x \<Longrightarrow> x \<noteq> s"
  by auto

lemma filter_args_elems_flag:
  "filter_flag incl \<Longrightarrow> filter_flag excl \<Longrightarrow> x \<in> set (filter_args ty incl excl final orig) \<Longrightarrow>
     filter_flag x \<or> x = join '','' (ids_of_type ty final)"
  using filter_args_elems by blast

lemma join_ids_char: 
  assumes "c \<in> set (join '','' (ids_of_type ty final))"
  shows "c = CHR '','' \<or> c = CHR ''-'' \<or> is_digit c"
proof -
  from join_chars[OF assms] consider "c \<in> set '',''" | x where "x \<in> set (ids_of_type ty final)" "c \<in> set x"
    by blast
  then show ?thesis
  proof cases
    case 1 then show ?thesis by simp
  next
    case 2
    then obtain i where "c \<in> set (str_int i)" unfolding ids_of_type_def by auto
    from str_int_chars[OF this] show ?thesis by blast
  qed
qed

lemma join_ids_not_property:
  "CHR '':'' \<notin> set (join '','' (ids_of_type ty final)) \<and>
   join '','' (ids_of_type ty final) \<noteq> ''--track-name'' \<and>
   join '','' (ids_of_type ty final) \<noteq> ''--default-track''"
proof -
  have a: "CHR '':'' \<notin> set (join '','' (ids_of_type ty final))"
  proof
    assume "CHR '':'' \<in> set (join '','' (ids_of_type ty final))"
    from join_ids_char[OF this] show False by (simp add: is_digit_def)
  qed
  have b: "CHR ''t'' \<notin> set (join '','' (ids_of_type ty final))"
  proof
    assume "CHR ''t'' \<in> set (join '','' (ids_of_type ty final))"
    from join_ids_char[OF this] show False by (simp add: is_digit_def)
  qed
  have "join '','' (ids_of_type ty final) \<noteq> ''--track-name''"
    by (rule neq_by_char[OF _ b]) simp
  moreover have "join '','' (ids_of_type ty final) \<noteq> ''--default-track''"
    by (rule neq_by_char[OF _ b]) simp
  ultimately show ?thesis using a by simp
qed

definition selection_args :: "track list \<Rightarrow> mkv_data \<Rightarrow> string list" where
  "selection_args final orig =
     filter_args ''video'' ''--video-tracks'' ''--no-video'' final orig
     @ filter_args ''audio'' ''--audio-tracks'' ''--no-audio'' final orig
     @ filter_args ''subtitles'' ''--subtitle-tracks'' ''--no-subtitles'' final orig"

lemma selection_args_elems:
  assumes "x \<in> set (selection_args final orig)"
  shows "CHR '':'' \<notin> set x \<and> x \<noteq> ''--track-name'' \<and> x \<noteq> ''--default-track''"
proof -
  have ff: "filter_flag ''--video-tracks''" "filter_flag ''--no-video''"
    "filter_flag ''--audio-tracks''" "filter_flag ''--no-audio''"
    "filter_flag ''--subtitle-tracks''" "filter_flag ''--no-subtitles''"
    by (simp_all add: filter_flag_cases)
  from assms have "x \<in> set (filter_args ''video'' ''--video-tracks'' ''--no-video'' final orig)
     \<or> x \<in> set (filter_args ''audio'' ''--audio-tracks'' ''--no-audio'' final orig)
     \<or> x \<in> set (filter_args ''subtitles'' ''--subtitle-tracks'' ''--no-subtitles'' final orig)"
    unfolding selection_args_def by simp
  then have "filter_flag x \<or> (\<exists>ty. x = join '','' (ids_of_type ty final))"
    using filter_args_elems_flag[OF ff(1,2)] filter_args_elems_flag[OF ff(3,4)]
      filter_args_elems_flag[OF ff(5,6)] by metis
  then show ?thesis
    using filter_flag_no_colon filter_flag_not_property join_ids_not_property by metis
qed

lemma build_command_args:
  "build_mkvmerge_command inp out final orig
     = [''mkvmerge'', ''-q'', ''-o'', out] @ selection_args final orig
       @ concat (map track_property_args final) @ [inp]"
  "butlast (drop 4 (build_mkvmerge_command inp out final orig))
     = selection_args final orig @ concat (map track_property_args final)"
  by (simp_all add: build_command_shape selection_args_def butlast_append)




lemma has_arg_pair: "has_arg [a, b] f v \<longleftrightarrow> f = a \<and> v = b"
  by (simp add: has_arg_def)

lemma has_arg_Nil: "\<not> has_arg [] f v"
  by (simp add: has_arg_def)

lemma has_arg_name_args:
  "has_arg (name_args u) f v \<longleftrightarrow>
     f = ''--track-name'' \<and>
     ((properties u ''track_name'' = None \<and> v = str_int (track_id u) @ '':'') \<or>
      (\<exists>x. properties u ''track_name'' = Some x \<and> x \<noteq> JNull
          \<and> v = str_int (track_id u) @ '':'' @ py_str x))"
  by (cases "properties u ''track_name''") (auto simp: name_args_def has_arg_pair has_arg_Nil)

lemma has_arg_default_args:
  "has_arg (default_args u) f v \<longleftrightarrow>
     f = ''--default-track'' \<and>
     (\<exists>x. properties u ''default_track'' = Some x
         \<and> v = str_int (track_id u) @ '':'' @ (if truthy x then ''1'' else ''0''))"
  by (cases "properties u ''default_track''") (auto simp: default_args_def has_arg_pair has_arg_Nil)

lemma name_args_elems:
  "x \<in> set (name_args u) \<Longrightarrow> x = ''--track-name'' \<or> CHR '':'' \<in> set x"
  by (cases "properties u ''track_name''") (auto simp: name_args_def split: if_splits)

lemma default_args_elems:
  "x \<in> set (default_args u) \<Longrightarrow> x = ''--default-track'' \<or> CHR '':'' \<in> set x"
  by (cases "properties u ''default_track''") (auto simp: default_args_def)

lemma has_arg_property_args:
  assumes "CHR '':'' \<notin> set f"
  shows "has_arg (track_property_args u) f v \<longleftrightarrow> has_arg (name_args u) f v \<or> has_arg (default_args u) f v"
proof
  assume "has_arg (track_property_args u) f v"
  then have "has_arg (name_args u @ default_args u) f v" by (simp add: track_property_args_split)
  from has_arg_appendE[OF this] name_args_last[of u] assms
  show "has_arg (name_args u) f v \<or> has_arg (default_args u) f v" by blast
next
  assume "has_arg (name_args u) f v \<or> has_arg (default_args u) f v"
  then show "has_arg (track_property_args u) f v"
    unfolding track_property_args_split using has_arg_appendI1 has_arg_appendI2 by blast
qed

lemma has_arg_command_args:
  assumes "CHR '':'' \<notin> set f" and "f \<notin> set (selection_args final orig)"
  shows "has_arg (butlast (drop 4 (build_mkvmerge_command inp out final orig))) f v
     \<longleftrightarrow> (\<exists>u\<in>set final. has_arg (track_property_args u) f v)"
proof
  assume "has_arg (butlast (drop 4 (build_mkvmerge_command inp out final orig))) f v"
  then have "has_arg (selection_args final orig @ concat (map track_property_args final)) f v"
    by (simp only: build_command_args(2))
  from has_arg_appendE[OF this] assms(2) have "has_arg (concat (map track_property_args final)) f v"
    using has_arg_in_set last_in_set by metis
  from has_arg_concat_property_args[OF this assms(1)]
  show "\<exists>u\<in>set final. has_arg (track_property_args u) f v" .
next
  assume "\<exists>u\<in>set final. has_arg (track_property_args u) f v"
  then obtain u where "u \<in> set final" "has_arg (track_property_args u) f v" by blast
  then have "has_arg (concat (map track_property_args final)) f v" by (rule has_arg_concat)
  then show "has_arg (butlast (drop 4 (build_mkvmerge_command inp out final orig))) f v"
    unfolding build_command_args(2) by (rule has_arg_appendI2)
qed

lemma has_arg_command:
  assumes "t \<in> set final" and "has_arg (track_property_args t) f v"
  shows "has_arg (build_mkvmerge_command inp out final orig) f v"
proof -
  from assms have "has_arg (concat (map track_property_args final)) f v" by (rule has_arg_concat)
  then have "has_arg (selection_args final orig @ concat (map track_property_args final) @ [inp]) f v"
    by (intro has_arg_appendI2 has_arg_appendI1)
  then have "has_arg ([''mkvmerge'', ''-q'', ''-o'', out]
         @ selection_args final orig @ concat (map track_property_args final) @ [inp]) f v"
    by (rule has_arg_appendI2)
  then show ?thesis by (simp only: build_command_args(1))
qed

lemma track_name_flag_not_selected: "''--track-name'' \<notin> set (selection_args final orig)"
  using selection_args_elems by blast

lemma default_track_flag_not_selected: "''--default-track'' \<notin> set (selection_args final orig)"
  using selection_args_elems by blast




definition example_video :: track where
  "example_video = \<lparr>track_id = 1, track_type = ''video'', codec = ''AVC'', properties = Map.empty\<rparr>"

definition example_audio2 :: track where
  "example_audio2 = \<lparr>track_id = 2, track_type = ''audio'', codec = ''AAC'', properties = Map.empty\<rparr>"

definition example_audio3 :: track where
  "example_audio3 = \<lparr>track_id = 3, track_type = ''audio'', codec = ''AC-3'',
     properties = [''track_name'' \<mapsto> JNull, ''default_track'' \<mapsto> JBool True]\<rparr>"

definition example_original :: mkv_data where
  "example_original = \<lparr>tracks = Some [example_video, example_audio2, example_audio3]\<rparr>"

theorem build_command_track_filters_witness:
  "''--no-audio'' \<in> set (butlast (drop 4
       (build_mkvmerge_command ''in.mkv'' ''out.mkv'' [example_video] example_original)))
   \<and> ''--audio-tracks'' \<notin> set (butlast (drop 4
       (build_mkvmerge_command ''in.mkv'' ''out.mkv'' [example_video] example_original)))"
proof -
  have m: "(''audio'', ''--audio-tracks'', ''--no-audio'') \<in> set type_flags"
    by (simp add: type_flags_def)
  have i: "ids_of_type ''audio'' [example_video] = []"
    by (simp add: ids_of_type_def example_video_def)
  have o: "original_has_type ''audio'' example_original"
    by (simp add: original_has_type_def example_original_def example_audio2_def)
  from build_command_track_filters[OF m, of "''in.mkv''" "''out.mkv''" "[example_video]" example_original]
  show ?thesis unfolding Let_def i using o by simp
qed

text \<open>
  Claim C2. For every track of \<open>final_tracks\<close> the command holds \<^verbatim>\<open>--track-name\<close>
  followed by \<^verbatim>\<open><id>:<name>\<close> when \<^verbatim>\<open>track_name\<close> is bound to the string \<open>name\<close>, and
  \<^verbatim>\<open>--track-name\<close> followed by \<^verbatim>\<open><id>:\<close> when the key \<^verbatim>\<open>track_name\<close> is absent; in
  particular when \<^verbatim>\<open>properties\<close> is the empty dictionary.
\<close>

theorem build_command_track_names:
  assumes "t \<in> set final"
  shows "(properties t ''track_name'' = Some (JStr name) \<longrightarrow>
            has_arg (build_mkvmerge_command inp out final orig)
              ''--track-name'' (str_int (track_id t) @ '':'' @ name))
       \<and> (properties t ''track_name'' = None \<longrightarrow>
            has_arg (build_mkvmerge_command inp out final orig)
              ''--track-name'' (str_int (track_id t) @ '':''))
       \<and> (properties t = Map.empty \<longrightarrow>
            has_arg (build_mkvmerge_command inp out final orig)
              ''--track-name'' (str_int (track_id t) @ '':''))"
proof -
  have c: "CHR '':'' \<notin> set ''--track-name''" by simp
  have a: "has_arg (build_mkvmerge_command inp out final orig) ''--track-name'' v"
    if "has_arg (name_args t) ''--track-name'' v" for v
  proof -
    from that have "has_arg (track_property_args t) ''--track-name'' v"
      unfolding has_arg_property_args[OF c] by (rule disjI1)
    then show ?thesis by (rule has_arg_command[OF assms])
  qed
  have s: "has_arg (name_args t) ''--track-name'' (str_int (track_id t) @ '':'' @ name)"
    if "properties t ''track_name'' = Some (JStr name)"
    unfolding has_arg_name_args using that by simp
  have n: "has_arg (name_args t) ''--track-name'' (str_int (track_id t) @ '':'')"
    if "properties t ''track_name'' = None"
    unfolding has_arg_name_args using that by simp
  have e: "properties t ''track_name'' = None" if "properties t = Map.empty"
    using that by simp
  show ?thesis
  proof (intro conjI impI)
    assume "properties t ''track_name'' = Some (JStr name)"
    then show "has_arg (build_mkvmerge_command inp out final orig)
              ''--track-name'' (str_int (track_id t) @ '':'' @ name)"
      by (intro a s)
  next
    assume "properties t ''track_name'' = None"
    then show "has_arg (build_mkvmerge_command inp out final orig)
              ''--track-name'' (str_int (track_id t) @ '':'')"
      by (intro a n)
  next
    assume "properties t = Map.empty"
    then show "has_arg (build_mkvmerge_command inp out final orig)
              ''--track-name'' (str_int (track_id t) @ '':'')"
      by (intro a n e)
  qed
qed

theorem build_command_track_names_witness:
  "has_arg (build_mkvmerge_command ''in.mkv'' ''out.mkv'' [example_video] example_original)
     ''--track-name'' (str_int 1 @ '':'')"
proof -
  have "example_video \<in> set [example_video]" by simp
  from build_command_track_names[OF this, of _ "''in.mkv''" "''out.mkv''" example_original]
  show ?thesis by (simp add: example_video_def)
qed

text \<open>
  Claim C5. The \<^verbatim>\<open>--default-track\<close> arguments of the command are exactly those of the
  tracks of \<open>final_tracks\<close> whose \<^verbatim>\<open>properties\<close> have the key \<^verbatim>\<open>default_track\<close>: the
  value is \<^verbatim>\<open><id>:1\<close> when the property is true and \<^verbatim>\<open><id>:0\<close> when it is false. A track
  without the key contributes no \<^verbatim>\<open>--default-track\<close> argument.
\<close>

theorem build_command_default_flags:
  "(has_arg (butlast (drop 4 (build_mkvmerge_command inp out final orig))) ''--default-track'' v
      \<longleftrightarrow> (\<exists>u\<in>set final. \<exists>x. properties u ''default_track'' = Some x
              \<and> v = str_int (track_id u) @ '':'' @ (if truthy x then ''1'' else ''0'')))
   \<and> (\<forall>t\<in>set final.
        (properties t ''default_track'' = Some (JBool True) \<longrightarrow>
           has_arg (build_mkvmerge_command inp out final orig)
             ''--default-track'' (str_int (track_id t) @ '':1''))
      \<and> (properties t ''default_track'' = Some (JBool False) \<longrightarrow>
           has_arg (build_mkvmerge_command inp out final orig)
             ''--default-track'' (str_int (track_id t) @ '':0''))
      \<and> (properties t ''default_track'' = None \<longrightarrow>
           ''--default-track'' \<notin> set (track_property_args t)))"
proof -
  have c: "CHR '':'' \<notin> set ''--default-track''" by simp
  have d: "has_arg (track_property_args u) ''--default-track'' v \<longleftrightarrow>
        (\<exists>x. properties u ''default_track'' = Some x
              \<and> v = str_int (track_id u) @ '':'' @ (if truthy x then ''1'' else ''0''))" for u v
    unfolding has_arg_property_args[OF c] has_arg_name_args has_arg_default_args by simp
  have 1: "has_arg (butlast (drop 4 (build_mkvmerge_command inp out final orig))) ''--default-track'' v
      \<longleftrightarrow> (\<exists>u\<in>set final. \<exists>x. properties u ''default_track'' = Some x
              \<and> v = str_int (track_id u) @ '':'' @ (if truthy x then ''1'' else ''0''))"
    unfolding has_arg_command_args[OF c default_track_flag_not_selected] d ..
  have 2: "has_arg (build_mkvmerge_command inp out final orig)
             ''--default-track'' (str_int (track_id t) @ '':1'')"
    if "t \<in> set final" "properties t ''default_track'' = Some (JBool True)" for t
    by (rule has_arg_command[OF that(1)]) (simp add: d that(2))
  have 3: "has_arg (build_mkvmerge_command inp out final orig)
             ''--default-track'' (str_int (track_id t) @ '':0'')"
    if "t \<in> set final" "properties t ''default_track'' = Some (JBool False)" for t
    by (rule has_arg_command[OF that(1)]) (simp add: d that(2))
  have 4: "''--default-track'' \<notin> set (track_property_args t)"
    if "properties t ''default_track'' = None" for t
  proof
    assume "''--default-track'' \<in> set (track_property_args t)"
    then have "''--default-track'' \<in> set (name_args t) \<or> ''--default-track'' \<in> set (default_args t)"
      by (simp add: track_property_args_split)
    moreover have "default_args t = []" using that by (simp add: default_args_def)
    ultimately have "''--default-track'' \<in> set (name_args t)" by simp
    from name_args_elems[OF this] show False by simp
  qed
  show ?thesis
  proof (intro conjI ballI impI)
    show "has_arg (butlast (drop 4 (build_mkvmerge_command inp out final orig))) ''--default-track'' v
      \<longleftrightarrow> (\<exists>u\<in>set final. \<exists>x. properties u ''default_track'' = Some x
              \<and> v = str_int (track_id u) @ '':'' @ (if truthy x then ''1'' else ''0''))"
      by (rule 1)
  next
    fix t assume "t \<in> set final" "properties t ''default_track'' = Some (JBool True)"
    then show "has_arg (build_mkvmerge_command inp out final orig)
             ''--default-track'' (str_int (track_id t) @ '':1'')" by (rule 2)
  next
    fix t assume "t \<in> set final" "properties t ''default_track'' = Some (JBool False)"
    then show "has_arg (build_mkvmerge_command inp out final orig)
             ''--default-track'' (str_int (track_id t) @ '':0'')" by (rule 3)
  next
    fix t :: track assume "properties t ''default_track'' = None"
    then show "''--default-track'' \<notin> set (track_property_args t)" by (rule 4)
  qed
qed




theorem build_command_default_flags_witness:
  "has_arg (build_mkvmerge_command ''in.mkv'' ''out.mkv'' [example_audio3, example_video] example_original)
     ''--default-track'' (str_int 3 @ '':1'')
   \<and> ''--default-track'' \<notin> set (track_property_args example_video)"
proof -
  from build_command_default_flags[of "''in.mkv''" "''out.mkv''" "[example_audio3, example_video]"
      example_original]
  have b: "\<forall>t\<in>set [example_audio3, example_video].
        (properties t ''default_track'' = Some (JBool True) \<longrightarrow>
           has_arg (build_mkvmerge_command ''in.mkv'' ''out.mkv'' [example_audio3, example_video] example_original)
             ''--default-track'' (str_int (track_id t) @ '':1''))
      \<and> (properties t ''default_track'' = Some (JBool False) \<longrightarrow>
           has_arg (build_mkvmerge_command ''in.mkv'' ''out.mkv'' [example_audio3, example_video] example_original)
             ''--default-track'' (str_int (track_id t) @ '':0''))
      \<and> (properties t ''default_track'' = None \<longrightarrow>
           ''--default-track'' \<notin> set (track_property_args t))"
    by (rule conjunct2)
  have 1: "properties example_audio3 ''default_track'' = Some (JBool True)" "track_id example_audio3 = 3"
    by (simp_all add: example_audio3_def)
  have 2: "properties example_video ''default_track'' = None"
    by (simp add: example_video_def)
  from b have "has_arg (build_mkvmerge_command ''in.mkv'' ''out.mkv'' [example_audio3, example_video] example_original)
             ''--default-track'' (str_int (track_id example_audio3) @ '':1'')"
    using 1(1) by simp
  moreover from b have "''--default-track'' \<notin> set (track_property_args example_video)"
    using 2 by simp
  ultimately show ?thesis by (simp add: 1(2))
qed

text \<open>
  Claim C10. The \<^verbatim>\<open>--track-name\<close> arguments of the command come from the tracks whose
  \<^verbatim>\<open>track_name\<close> key is absent (clear flag) or bound to a value other than \<^verbatim>\<open>None\<close>
  (set flag). A track whose key is present and bound to \<^verbatim>\<open>None\<close> contributes neither
  flag: the third, silent state.
\<close>

theorem build_command_null_name_silent:
  "(has_arg (butlast (drop 4 (build_mkvmerge_command inp out final orig))) ''--track-name'' v
      \<longleftrightarrow> (\<exists>u\<in>set final.
            (properties u ''track_name'' = None \<and> v = str_int (track_id u) @ '':'') \<or>
            (\<exists>x. properties u ''track_name'' = Some x \<and> x \<noteq> JNull
                \<and> v = str_int (track_id u) @ '':'' @ py_str x)))
   \<and> (\<forall>t\<in>set final. properties t ''track_name'' = Some JNull \<longrightarrow>
          ''--track-name'' \<notin> set (track_property_args t))
   \<and> ((\<forall>t\<in>set final. properties t ''track_name'' = Some JNull) \<longrightarrow>
        ''--track-name'' \<notin> set (butlast (drop 4 (build_mkvmerge_command inp out final orig))))"
proof -
  have c: "CHR '':'' \<notin> set ''--track-name''" by simp
  have d: "has_arg (track_property_args u) ''--track-name'' v \<longleftrightarrow>
        (properties u ''track_name'' = None \<and> v = str_int (track_id u) @ '':'') \<or>
            (\<exists>x. properties u ''track_name'' = Some x \<and> x \<noteq> JNull
                \<and> v = str_int (track_id u) @ '':'' @ py_str x)" for u v
    unfolding has_arg_property_args[OF c] has_arg_name_args has_arg_default_args by simp
  have 1: "has_arg (butlast (drop 4 (build_mkvmerge_command inp out final orig))) ''--track-name'' v
      \<longleftrightarrow> (\<exists>u\<in>set final.
            (properties u ''track_name'' = None \<and> v = str_int (track_id u) @ '':'') \<or>
            (\<exists>x. properties u ''track_name'' = Some x \<and> x \<noteq> JNull
                \<and> v = str_int (track_id u) @ '':'' @ py_str x))"
    unfolding has_arg_command_args[OF c track_name_flag_not_selected] d ..
  have 2: "''--track-name'' \<notin> set (track_property_args t)"
    if "properties t ''track_name'' = Some JNull" for t
  proof
    assume "''--track-name'' \<in> set (track_property_args t)"
    then have "''--track-name'' \<in> set (name_args t) \<or> ''--track-name'' \<in> set (default_args t)"
      by (simp add: track_property_args_split)
    moreover have "name_args t = []" using that by (simp add: name_args_def)
    ultimately have "''--track-name'' \<in> set (default_args t)" by simp
    from default_args_elems[OF this] show False by simp
  qed
  have 3: "''--track-name'' \<notin> set (butlast (drop 4 (build_mkvmerge_command inp out final orig)))"
    if a: "\<forall>t\<in>set final. properties t ''track_name'' = Some JNull"
  proof
    assume "''--track-name'' \<in> set (butlast (drop 4 (build_mkvmerge_command inp out final orig)))"
    then have "''--track-name'' \<in> set (selection_args final orig)
        \<or> ''--track-name'' \<in> set (concat (map track_property_args final))"
      by (simp only: build_command_args(2) set_append Un_iff)
    with track_name_flag_not_selected
    have "''--track-name'' \<in> set (concat (map track_property_args final))" by simp
    then obtain t where "t \<in> set final" "''--track-name'' \<in> set (track_property_args t)"
      by auto
    with a 2 show False by blast
  qed
  show ?thesis
  proof (intro conjI ballI impI)
    show "has_arg (butlast (drop 4 (build_mkvmerge_command inp out final orig))) ''--track-name'' v
      \<longleftrightarrow> (\<exists>u\<in>set final.
            (properties u ''track_name'' = None \<and> v = str_int (track_id u) @ '':'') \<or>
            (\<exists>x. properties u ''track_name'' = Some x \<and> x \<noteq> JNull
                \<and> v = str_int (track_id u) @ '':'' @ py_str x))"
      by (rule 1)
  next
    fix t :: track assume "properties t ''track_name'' = Some JNull"
    then show "''--track-name'' \<notin> set (track_property_args t)" by (rule 2)
  next
    assume "\<forall>t\<in>set final. properties t ''track_name'' = Some JNull"
    then show "''--track-name'' \<notin> set (butlast (drop 4 (build_mkvmerge_command inp out final orig)))"
      by (rule 3)
  qed
qed

theorem build_command_null_name_silent_witness:
  "''--track-name'' \<notin> set (butlast (drop 4
      (build_mkvmerge_command ''in.mkv'' ''out.mkv'' [example_audio3] example_original)))"
proof -
  have a: "\<forall>t\<in>set [example_audio3]. properties t ''track_name'' = Some JNull"
    by (simp add: example_audio3_def)
  from build_command_null_name_silent[of "''in.mkv''" "''out.mkv''" "[example_audio3]" example_original,
      THEN conjunct2, THEN conjunct2]
  have "(\<forall>t\<in>set [example_audio3]. properties t ''track_name'' = Some JNull) \<longrightarrow>
        ''--track-name'' \<notin> set (butlast (drop 4
           (build_mkvmerge_command ''in.mkv'' ''out.mkv'' [example_audio3] example_original)))"
    .
  from this a show ?thesis by (rule mp)
qed


subsection \<open>Selection engine: \<^verbatim>\<open>select_tracks_to_keep\<close>\<close>

text \<open>
  A reference to a track dictionary: its position in \<^verbatim>\<open>all_tracks\<close>. The three list
  comprehensions of lines 81-83 collect references, not copies.
\<close>

type_synonym ref = nat

definition tracks_of_type :: "string \<Rightarrow> track list \<Rightarrow> ref list" where
  "tracks_of_type ty all_tracks =
     filter (\<lambda>r. track_type (all_tracks ! r) = ty) [0..<length all_tracks]"

text \<open>
  The numbering loops (lines 91-95, 104-108, 155-159): each track of the group gets the
  next display number in \<^verbatim>\<open>track_map_to_original_data\<close>.
\<close>

fun number_tracks :: "ref list \<Rightarrow> (int \<rightharpoonup> ref) \<times> int \<Rightarrow> (int \<rightharpoonup> ref) \<times> int" where
  "number_tracks [] (track_map, current_display_num) = (track_map, current_display_num)"
| "number_tracks (track # rest) (track_map, current_display_num) =
     number_tracks rest (track_map(current_display_num \<mapsto> track), current_display_num + 1)"

text \<open>
  One reading of the selection prompt (lines 122-139, and the same code at 173-189), on
  the stripped input: \<open>Some\<close> of the selected display numbers when \<^verbatim>\<open>valid_input\<close>
  stays true, \<open>None\<close> when it becomes false (a number out of range, or
  \<^verbatim>\<open>ValueError\<close> from \<^verbatim>\<open>int\<close>).
\<close>

definition parse_selection :: "int \<Rightarrow> int \<Rightarrow> string \<Rightarrow> int list option" where
  "parse_selection selection_start_num selection_end_num raw_input =
     (if lower raw_input = ''all'' then Some [selection_start_num..selection_end_num - 1]
      else if lower raw_input = ''none'' \<or> raw_input = [] then Some []
      else (case those (map (\<lambda>x. py_int (strip x)) (split_comma raw_input)) of
              None \<Rightarrow> None
            | Some selected_indices \<Rightarrow>
                if list_all (\<lambda>i_val. selection_start_num \<le> i_val \<and> i_val < selection_end_num)
                     selected_indices
                then Some selected_indices else None))"

text \<open>Lines 141-145: append the selected tracks; an unmapped number is skipped.\<close>

fun add_selected :: "(int \<rightharpoonup> ref) \<Rightarrow> ref list \<Rightarrow> int list \<Rightarrow> ref list" where
  "add_selected track_map kept_tracks [] = kept_tracks"
| "add_selected track_map kept_tracks (i_val # rest) =
     add_selected track_map
       (case track_map i_val of None \<Rightarrow> kept_tracks | Some t \<Rightarrow> kept_tracks @ [t]) rest"

text \<open>
  The \<^verbatim>\<open>while True\<close> loop of a group (lines 111-146 and 162-197): read lines until one
  is valid. The result is \<^verbatim>\<open>kept_tracks\<close> and the unread input.
\<close>

fun prompt_loop ::
    "int \<Rightarrow> int \<Rightarrow> (int \<rightharpoonup> ref) \<Rightarrow> ref list \<Rightarrow> string list \<Rightarrow> error + (ref list \<times> string list)" where
  "prompt_loop selection_start_num selection_end_num track_map kept_tracks [] = Inl EOFError"
| "prompt_loop selection_start_num selection_end_num track_map kept_tracks (line # inputs) =
     (case parse_selection selection_start_num selection_end_num (strip line) of
        None \<Rightarrow> prompt_loop selection_start_num selection_end_num track_map kept_tracks inputs
      | Some selected_indices \<Rightarrow> Inr (add_selected track_map kept_tracks selected_indices, inputs))"

text \<open>
  The block of one group (lines 99-148 for audio, 150-199 for subtitles): number the
  group's tracks and prompt, or skip both when the group is empty.
\<close>

definition select_group ::
    "ref list \<Rightarrow> (int \<rightharpoonup> ref) \<times> int \<Rightarrow> ref list \<Rightarrow> string list
      \<Rightarrow> error + (((int \<rightharpoonup> ref) \<times> int) \<times> ref list \<times> string list)" where
  "select_group group_tracks numbering kept_tracks inputs =
     (let selection_start_num = snd numbering in
      if group_tracks \<noteq> [] then
        (let numbering = number_tracks group_tracks numbering;
             selection_end_num = snd numbering
         in case prompt_loop selection_start_num selection_end_num (fst numbering)
                   kept_tracks inputs of
              Inl e \<Rightarrow> Inl e
            | Inr (kept_tracks, inputs) \<Rightarrow> Inr (numbering, kept_tracks, inputs))
      else Inr (numbering, kept_tracks, inputs))"

definition select_tracks_to_keep ::
    "track list \<Rightarrow> string list \<Rightarrow> error + (ref list \<times> string list)" where
  "select_tracks_to_keep all_tracks inputs =
     (let video_tracks = tracks_of_type ''video'' all_tracks;
          audio_tracks = tracks_of_type ''audio'' all_tracks;
          subtitle_tracks = tracks_of_type ''subtitles'' all_tracks;
          numbering = number_tracks video_tracks (Map.empty, 1);
          kept_tracks = video_tracks
      in case select_group audio_tracks numbering kept_tracks inputs of
           Inl e \<Rightarrow> Inl e
         | Inr (numbering, kept_tracks, inputs) \<Rightarrow>
             (case select_group subtitle_tracks numbering kept_tracks inputs of
                Inl e \<Rightarrow> Inl e
              | Inr (numbering, kept_tracks, inputs) \<Rightarrow>
                  Inr (sort_key (\<lambda>r. track_id (all_tracks ! r)) kept_tracks, inputs)))"




lemma number_tracks_result:
  "number_tracks g (m, n) =
     (\<lambda>d. if n \<le> d \<and> d < n + int (length g) then Some (g ! nat (d - n)) else m d,
      n + int (length g))"
proof (induction g arbitrary: m n)
  case Nil
  then show ?case by (auto simp: fun_eq_iff)
next
  case (Cons t ts)
  have "(\<lambda>d. if n + 1 \<le> d \<and> d < n + 1 + int (length ts) then Some (ts ! nat (d - (n + 1)))
             else (m(n \<mapsto> t)) d)
      = (\<lambda>d. if n \<le> d \<and> d < n + int (length (t # ts)) then Some ((t # ts) ! nat (d - n)) else m d)"
  proof
    fix d
    show "(if n + 1 \<le> d \<and> d < n + 1 + int (length ts) then Some (ts ! nat (d - (n + 1)))
             else (m(n \<mapsto> t)) d)
      = (if n \<le> d \<and> d < n + int (length (t # ts)) then Some ((t # ts) ! nat (d - n)) else m d)"
    proof (cases "d = n")
      case True
      then show ?thesis by simp
    next
      case False
      have "nat (d - n) = Suc (nat (d - (n + 1)))" if "n + 1 \<le> d" using that by simp
      then show ?thesis using False by auto
    qed
  qed
  then show ?case by (simp add: Cons.IH)
qed

lemma add_selected_map:
  "\<forall>i\<in>set sel. m i \<noteq> None \<Longrightarrow> add_selected m kept sel = kept @ map (\<lambda>i. the (m i)) sel"
  by (induction sel arbitrary: kept) auto

lemma add_selected_prefix: "\<exists>xs. add_selected m kept sel = kept @ xs"
proof (induction sel arbitrary: kept)
  case Nil
  then show ?case by simp
next
  case (Cons i sel)
  show ?case
  proof (cases "m i")
    case None
    then show ?thesis using Cons[of kept] by simp
  next
    case (Some t)
    from Cons[of "kept @ [t]"] obtain xs where "add_selected m (kept @ [t]) sel = (kept @ [t]) @ xs"
      by blast
    then show ?thesis using Some by simp
  qed
qed

lemma parse_selection_range:
  assumes "parse_selection s e raw = Some sel"
  shows "\<forall>i\<in>set sel. s \<le> i \<and> i < e"
proof (cases "lower raw = ''all''")
  case True
  with assms have "sel = [s..e - 1]" by (simp add: parse_selection_def)
  then show ?thesis by auto
next
  case False
  show ?thesis
  proof (cases "lower raw = ''none'' \<or> raw = []")
    case True
    with assms False have "sel = []" by (auto simp: parse_selection_def)
    then show ?thesis by simp
  next
    case n: False
    with assms False show ?thesis
      by (auto simp: parse_selection_def list_all_iff split: option.splits if_splits)
  qed
qed

lemma upto_as_map: "[s..s + int n - 1] = map (\<lambda>k. s + int k) [0..<n]"
proof (induction n)
  case 0
  then show ?case by simp
next
  case (Suc n)
  have "[s..s + int (Suc n) - 1] = [s..s + int n - 1] @ [s + int n]"
    using upto_rec2[of s "s + int n"] by simp
  then show ?case by (simp add: Suc)
qed

lemma map_group_all:
  "map (\<lambda>d. g ! nat (d - s)) [s..s + int (length g) - 1] = g"
  by (simp add: upto_as_map map_nth o_def)

lemma prompt_loop_accept:
  assumes "parse_selection n (n + int (length g)) (strip line) = Some sel"
  shows "prompt_loop n (n + int (length g)) (fst (number_tracks g (m, n))) kept (line # rest)
          = Inr (kept @ map (\<lambda>d. g ! nat (d - n)) sel, rest)"
proof -
  from parse_selection_range[OF assms] have r: "\<forall>i\<in>set sel. n \<le> i \<and> i < n + int (length g)" .
  then have "\<forall>i\<in>set sel. fst (number_tracks g (m, n)) i \<noteq> None"
    by (simp add: number_tracks_result)
  from add_selected_map[OF this]
  have "add_selected (fst (number_tracks g (m, n))) kept sel = kept @ map (\<lambda>d. g ! nat (d - n)) sel"
    using r by (simp add: number_tracks_result cong: map_cong)
  then show ?thesis using assms by simp
qed

lemma select_group_accept:
  assumes "g \<noteq> []" "parse_selection n (n + int (length g)) (strip line) = Some sel"
  shows "select_group g (m, n) kept (line # rest)
          = Inr (number_tracks g (m, n), kept @ map (\<lambda>d. g ! nat (d - n)) sel, rest)"
proof -
  have "snd (number_tracks g (m, n)) = n + int (length g)" by (simp add: number_tracks_result)
  then show ?thesis
    unfolding select_group_def Let_def snd_conv using assms(1)
    by (simp add: prompt_loop_accept[OF assms(2)] del: prompt_loop.simps)
qed

lemma select_group_empty: "select_group [] numbering kept inputs = Inr (numbering, kept, inputs)"
  by (simp add: select_group_def)

lemma select_group_reject:
  assumes "g \<noteq> []" "parse_selection n (n + int (length g)) (strip line) = None"
  shows "select_group g (m, n) kept (line # rest) = select_group g (m, n) kept rest"
proof -
  have "snd (number_tracks g (m, n)) = n + int (length g)" by (simp add: number_tracks_result)
  then show ?thesis using assms by (simp add: select_group_def Let_def)
qed




definition audio_selection_start_num :: "track list \<Rightarrow> int" where
  "audio_selection_start_num all_tracks = 1 + int (length (tracks_of_type ''video'' all_tracks))"

definition audio_selection_end_num :: "track list \<Rightarrow> int" where
  "audio_selection_end_num all_tracks =
     audio_selection_start_num all_tracks + int (length (tracks_of_type ''audio'' all_tracks))"

definition subtitle_selection_start_num :: "track list \<Rightarrow> int" where
  "subtitle_selection_start_num all_tracks = audio_selection_end_num all_tracks"

definition subtitle_selection_end_num :: "track list \<Rightarrow> int" where
  "subtitle_selection_end_num all_tracks =
     subtitle_selection_start_num all_tracks + int (length (tracks_of_type ''subtitles'' all_tracks))"

text \<open>The track a display number of a group stands for.\<close>

definition displayed :: "ref list \<Rightarrow> int \<Rightarrow> int \<Rightarrow> ref" where
  "displayed group_tracks selection_start_num d = group_tracks ! nat (d - selection_start_num)"

text \<open>The input a run reads when each prompt is shown once.\<close>

definition one_line_each :: "track list \<Rightarrow> string \<Rightarrow> string \<Rightarrow> string list \<Rightarrow> string list" where
  "one_line_each all_tracks a_line s_line rest =
     (if tracks_of_type ''audio'' all_tracks = [] then [] else [a_line])
     @ (if tracks_of_type ''subtitles'' all_tracks = [] then [] else [s_line]) @ rest"

lemma select_once:
  fixes all_tracks :: "track list"
  defines "V \<equiv> tracks_of_type ''video'' all_tracks"
    and "A \<equiv> tracks_of_type ''audio'' all_tracks"
    and "S \<equiv> tracks_of_type ''subtitles'' all_tracks"
  assumes a: "A = [] \<or> parse_selection (audio_selection_start_num all_tracks)
                 (audio_selection_end_num all_tracks) (strip a_line) = Some asel"
    and s: "S = [] \<or> parse_selection (subtitle_selection_start_num all_tracks)
                 (subtitle_selection_end_num all_tracks) (strip s_line) = Some ssel"
  shows "select_tracks_to_keep all_tracks (one_line_each all_tracks a_line s_line rest)
     = Inr (sort_key (\<lambda>r. track_id (all_tracks ! r))
         (V @ (if A = [] then [] else map (displayed A (audio_selection_start_num all_tracks)) asel)
            @ (if S = [] then [] else map (displayed S (subtitle_selection_start_num all_tracks)) ssel)),
         rest)"
proof -
  define n1 where "n1 = audio_selection_start_num all_tracks"
  define n2 where "n2 = n1 + int (length A)"
  define m1 where "m1 = fst (number_tracks V (Map.empty, 1))"
  define m2 where "m2 = (if A = [] then m1 else fst (number_tracks A (m1, n1)))"
  define m3 where "m3 = (if S = [] then m2 else fst (number_tracks S (m2, n2)))"
  define n3 where "n3 = n2 + int (length S)"
  define k1 where "k1 = V @ (if A = [] then [] else map (displayed A n1) asel)"
  define k2 where "k2 = k1 @ (if S = [] then [] else map (displayed S n2) ssel)"
  define in1 where "in1 = (if S = [] then [] else [s_line]) @ rest"
  have e: "audio_selection_end_num all_tracks = n2" "subtitle_selection_start_num all_tracks = n2"
    "subtitle_selection_end_num all_tracks = n3"
    by (simp_all add: audio_selection_end_num_def subtitle_selection_start_num_def
        subtitle_selection_end_num_def n1_def n2_def n3_def A_def S_def)
  have v: "number_tracks V (Map.empty, 1) = (m1, n1)"
    by (simp add: m1_def n1_def audio_selection_start_num_def V_def number_tracks_result)
  have g1: "select_group A (m1, n1) V ((if A = [] then [] else [a_line]) @ in1) = Inr ((m2, n2), k1, in1)"
  proof (cases "A = []")
    case True
    then show ?thesis by (simp add: select_group_empty m2_def n2_def k1_def)
  next
    case False
    with a have p: "parse_selection n1 (n1 + int (length A)) (strip a_line) = Some asel"
      by (simp add: e n1_def[symmetric] n2_def)
    have "number_tracks A (m1, n1) = (m2, n2)"
      using False by (simp add: m2_def n2_def number_tracks_result)
    with select_group_accept[OF False p, of m1 V in1] False show ?thesis
      by (simp add: k1_def displayed_def[abs_def])
  qed
  have g2: "select_group S (m2, n2) k1 in1 = Inr ((m3, n3), k2, rest)"
  proof (cases "S = []")
    case True
    then show ?thesis by (simp add: select_group_empty m3_def n3_def k2_def in1_def)
  next
    case False
    with s have p: "parse_selection n2 (n2 + int (length S)) (strip s_line) = Some ssel"
      by (simp add: e n3_def)
    have "number_tracks S (m2, n2) = (m3, n3)"
      using False by (simp add: m3_def n3_def number_tracks_result)
    with select_group_accept[OF False p, of m2 k1 rest] False show ?thesis
      by (simp add: k2_def in1_def displayed_def[abs_def])
  qed
  have "one_line_each all_tracks a_line s_line rest = (if A = [] then [] else [a_line]) @ in1"
    by (simp add: one_line_each_def A_def S_def in1_def)
  then have "select_tracks_to_keep all_tracks (one_line_each all_tracks a_line s_line rest)
      = Inr (sort_key (\<lambda>r. track_id (all_tracks ! r)) k2, rest)"
    unfolding select_tracks_to_keep_def Let_def V_def[symmetric] A_def[symmetric] S_def[symmetric]
    by (simp add: v g1 g2)
  then show ?thesis by (simp add: k2_def k1_def e n1_def)
qed




definition track_key :: "track list \<Rightarrow> ref \<Rightarrow> int" where
  "track_key all_tracks r = track_id (all_tracks ! r)"

definition invalid_token :: "int \<Rightarrow> int \<Rightarrow> string \<Rightarrow> bool" where
  "invalid_token selection_start_num selection_end_num x =
     (case py_int (strip x) of
        None \<Rightarrow> True
      | Some i_val \<Rightarrow> \<not> (selection_start_num \<le> i_val \<and> i_val < selection_end_num))"

definition ex_tracks :: "track list" where
  "ex_tracks =
     [\<lparr>track_id = 0, track_type = ''video'', codec = ''AVC'', properties = Map.empty\<rparr>,
      \<lparr>track_id = 1, track_type = ''audio'', codec = ''AAC'', properties = Map.empty\<rparr>,
      \<lparr>track_id = 2, track_type = ''audio'', codec = ''AC-3'', properties = Map.empty\<rparr>,
      \<lparr>track_id = 3, track_type = ''subtitles'', codec = ''SRT'', properties = Map.empty\<rparr>]"

lemma prompt_loop_prefix:
  "prompt_loop s e m kept inputs = Inr (kept', rest) \<Longrightarrow> \<exists>xs. kept' = kept @ xs"
proof (induction inputs)
  case Nil
  then show ?case by simp
next
  case (Cons line inputs)
  show ?case
  proof (cases "parse_selection s e (strip line)")
    case None
    with Cons show ?thesis by simp
  next
    case (Some sel)
    with Cons.prems have "kept' = add_selected m kept sel" by simp
    with add_selected_prefix[of m kept sel] show ?thesis by simp
  qed
qed

lemma select_group_prefix:
  assumes "select_group g numbering kept inputs = Inr (numbering', kept', rest)"
  shows "\<exists>xs. kept' = kept @ xs"
proof (cases "g = []")
  case True
  with assms show ?thesis by (simp add: select_group_def)
next
  case False
  with assms obtain s e m where "prompt_loop s e m kept inputs = Inr (kept', rest)"
    by (auto simp: select_group_def Let_def split: sum.splits)
  then show ?thesis by (rule prompt_loop_prefix)
qed

lemma select_result:
  assumes "select_tracks_to_keep all_tracks inputs = Inr (kept, rest)"
  shows "sorted (map (\<lambda>r. track_id (all_tracks ! r)) kept)
       \<and> set (tracks_of_type ''video'' all_tracks) \<subseteq> set kept"
proof -
  define V where "V = tracks_of_type ''video'' all_tracks"
  from assms obtain num1 k1 in1 num2 k2 where
    1: "select_group (tracks_of_type ''audio'' all_tracks) (number_tracks V (Map.empty, 1)) V inputs
          = Inr (num1, k1, in1)"
    and 2: "select_group (tracks_of_type ''subtitles'' all_tracks) num1 k1 in1 = Inr (num2, k2, rest)"
    and 3: "kept = sort_key (\<lambda>r. track_id (all_tracks ! r)) k2"
    unfolding select_tracks_to_keep_def Let_def V_def[symmetric]
    by (auto split: sum.splits)
  from select_group_prefix[OF 1] select_group_prefix[OF 2] have "set V \<subseteq> set k2" by auto
  with 3 show ?thesis by (simp add: V_def)
qed

lemma parse_selection_all:
  "lower raw = ''all'' \<Longrightarrow> parse_selection s e raw = Some [s..e - 1]"
  by (simp add: parse_selection_def)

lemma parse_selection_none:
  assumes "lower raw \<noteq> ''all''" "lower raw = ''none'' \<or> raw = []"
  shows "parse_selection s e raw = Some []"
  using assms unfolding parse_selection_def by (simp only: if_False if_True)

lemma those_None: "None \<in> set xs \<Longrightarrow> those xs = None"
  by (induction xs) (auto split: option.splits)

lemma those_Some: "those xs = Some ys \<Longrightarrow> xs = map Some ys"
  by (induction xs arbitrary: ys) (auto split: option.splits)

lemma parse_selection_invalid:
  assumes "lower raw \<noteq> ''all''" "lower raw \<noteq> ''none''" "raw \<noteq> []"
    and "\<exists>x\<in>set (split_comma raw). invalid_token s e x"
  shows "parse_selection s e raw = None"
proof (cases "those (map (\<lambda>x. py_int (strip x)) (split_comma raw))")
  case None
  with assms(1-3) show ?thesis unfolding parse_selection_def by (simp only: if_False simp_thms option.case)
next
  case (Some sel)
  from assms(4) obtain x where x: "x \<in> set (split_comma raw)" "invalid_token s e x" by blast
  from those_Some[OF Some] have m: "map (\<lambda>x. py_int (strip x)) (split_comma raw) = map Some sel" .
  from x(1) have "py_int (strip x) \<in> set (map (\<lambda>x. py_int (strip x)) (split_comma raw))" by simp
  then obtain i where i: "i \<in> set sel" "py_int (strip x) = Some i" unfolding m by auto
  with x(2) have "\<not> (s \<le> i \<and> i < e)" by (simp add: invalid_token_def)
  with i(1) have "\<not> list_all (\<lambda>i_val. s \<le> i_val \<and> i_val < e) sel" by (auto simp: list_all_iff)
  with Some assms(1-3) show ?thesis unfolding parse_selection_def
    by (simp only: if_False simp_thms option.case)
qed




lemma map_displayed_all:
  "map (displayed g s) [s..s + int (length g) - 1] = g"
  using map_group_all[of g s] by (simp add: displayed_def[abs_def])

text \<open>
  Claim C6. When each prompt of the selection engine is answered once, by \<^verbatim>\<open>all\<close>,
  \<^verbatim>\<open>none\<close> or an empty line (in any letter case, surrounded by blanks or not), the
  result is the list of all video tracks, every audio track when the audio answer is
  \<^verbatim>\<open>all\<close> and none otherwise, and likewise for the subtitles, sorted by id; no line is
  read for the video tracks or for an empty group. Every list the engine returns, on any
  input, is sorted by id and holds every video track.
\<close>

theorem select_all_none:
  assumes a: "lower (strip a_line) = ''all'' \<or> lower (strip a_line) = ''none'' \<or> strip a_line = []"
    and s: "lower (strip s_line) = ''all'' \<or> lower (strip s_line) = ''none'' \<or> strip s_line = []"
  shows "select_tracks_to_keep all_tracks (one_line_each all_tracks a_line s_line rest)
       = Inr (sort_key (\<lambda>r. track_id (all_tracks ! r))
           (tracks_of_type ''video'' all_tracks
            @ (if lower (strip a_line) = ''all'' then tracks_of_type ''audio'' all_tracks else [])
            @ (if lower (strip s_line) = ''all'' then tracks_of_type ''subtitles'' all_tracks else [])),
           rest)
     \<and> (\<forall>inputs kept rest'. select_tracks_to_keep all_tracks inputs = Inr (kept, rest') \<longrightarrow>
           sorted (map (\<lambda>r. track_id (all_tracks ! r)) kept)
         \<and> set (tracks_of_type ''video'' all_tracks) \<subseteq> set kept)"
proof -
  define A where "A = tracks_of_type ''audio'' all_tracks"
  define S where "S = tracks_of_type ''subtitles'' all_tracks"
  define asel where "asel = (if lower (strip a_line) = ''all''
     then [audio_selection_start_num all_tracks..audio_selection_end_num all_tracks - 1] else [])"
  define ssel where "ssel = (if lower (strip s_line) = ''all''
     then [subtitle_selection_start_num all_tracks..subtitle_selection_end_num all_tracks - 1] else [])"
  have pa: "parse_selection (audio_selection_start_num all_tracks)
                 (audio_selection_end_num all_tracks) (strip a_line) = Some asel"
  proof (cases "lower (strip a_line) = ''all''")
    case True
    then show ?thesis by (simp add: asel_def parse_selection_all)
  next
    case False
    with a have "lower (strip a_line) = ''none'' \<or> strip a_line = []" by simp
    from parse_selection_none[OF False this] False show ?thesis by (simp add: asel_def)
  qed
  have ps: "parse_selection (subtitle_selection_start_num all_tracks)
                 (subtitle_selection_end_num all_tracks) (strip s_line) = Some ssel"
  proof (cases "lower (strip s_line) = ''all''")
    case True
    then show ?thesis by (simp add: ssel_def parse_selection_all)
  next
    case False
    with s have "lower (strip s_line) = ''none'' \<or> strip s_line = []" by simp
    from parse_selection_none[OF False this] False show ?thesis by (simp add: ssel_def)
  qed
  have ma: "(if A = [] then [] else map (displayed A (audio_selection_start_num all_tracks)) asel)
      = (if lower (strip a_line) = ''all'' then A else [])"
    by (simp add: asel_def audio_selection_end_num_def A_def[symmetric] map_displayed_all)
  have ms: "(if S = [] then [] else map (displayed S (subtitle_selection_start_num all_tracks)) ssel)
      = (if lower (strip s_line) = ''all'' then S else [])"
    by (simp add: ssel_def subtitle_selection_end_num_def S_def[symmetric] map_displayed_all)
  have "select_tracks_to_keep all_tracks (one_line_each all_tracks a_line s_line rest)
       = Inr (sort_key (\<lambda>r. track_id (all_tracks ! r))
           (tracks_of_type ''video'' all_tracks
            @ (if lower (strip a_line) = ''all'' then A else [])
            @ (if lower (strip s_line) = ''all'' then S else [])),
           rest)"
    using select_once[of all_tracks a_line asel s_line ssel rest, OF disjI2[OF pa] disjI2[OF ps]]
    unfolding A_def[symmetric] S_def[symmetric] ma ms .
  then show ?thesis unfolding A_def S_def using select_result by blast
qed

theorem select_all_none_witness:
  "select_tracks_to_keep ex_tracks [''ALL'', ''''] = Inr ([0, 1, 2], [])"
proof -
  have a: "lower (strip ''ALL'') = ''all'' \<or> lower (strip ''ALL'') = ''none'' \<or> strip ''ALL'' = []"
    by code_simp
  have s: "lower (strip '''') = ''all'' \<or> lower (strip '''') = ''none'' \<or> strip '''' = []"
    by code_simp
  have i: "one_line_each ex_tracks ''ALL'' '''' [] = [''ALL'', '''']"
    by code_simp
  have r: "sort_key (\<lambda>r. track_id (ex_tracks ! r))
           (tracks_of_type ''video'' ex_tracks
            @ (if lower (strip ''ALL'') = ''all'' then tracks_of_type ''audio'' ex_tracks else [])
            @ (if lower (strip '''') = ''all'' then tracks_of_type ''subtitles'' ex_tracks else []))
         = [0, 1, 2]"
    by code_simp
  from select_all_none[OF a s, of ex_tracks "[]", THEN conjunct1]
  show ?thesis unfolding i r .
qed

text \<open>
  Claim C7. At the prompt of a non-empty group, an input line that is not \<^verbatim>\<open>all\<close>,
  \<^verbatim>\<open>none\<close> or empty and has a comma-separated token that is not an integer, or is an
  integer outside the group's display numbers, changes nothing: the group's block goes
  on with the next line from the same numbering and the same kept list. The track data
  is not an output of the engine, so it is not modified.
\<close>

theorem select_group_rejects_invalid:
  assumes "group_tracks \<noteq> []"
    and "lower (strip line) \<noteq> ''all''" "lower (strip line) \<noteq> ''none''" "strip line \<noteq> []"
    and "\<exists>x\<in>set (split_comma (strip line)).
           invalid_token n (n + int (length group_tracks)) x"
  shows "select_group group_tracks (track_map, n) kept_tracks (line # inputs)
           = select_group group_tracks (track_map, n) kept_tracks inputs
       \<and> (group_tracks = tracks_of_type ''audio'' all_tracks
            \<and> n = audio_selection_start_num all_tracks \<longrightarrow>
          select_tracks_to_keep all_tracks (line # inputs)
            = select_tracks_to_keep all_tracks inputs)"
proof -
  have p: "parse_selection n (n + int (length group_tracks)) (strip line) = None"
    using assms(2-5) by (rule parse_selection_invalid)
  have g: "select_group group_tracks (m, n) kept (line # inputs)
           = select_group group_tracks (m, n) kept inputs" for m kept
    using assms(1) p by (rule select_group_reject)
  have "select_tracks_to_keep all_tracks (line # inputs) = select_tracks_to_keep all_tracks inputs"
    if "group_tracks = tracks_of_type ''audio'' all_tracks" "n = audio_selection_start_num all_tracks"
  proof -
    define m1 where "m1 = fst (number_tracks (tracks_of_type ''video'' all_tracks) (Map.empty, 1))"
    have "number_tracks (tracks_of_type ''video'' all_tracks) (Map.empty, 1) = (m1, n)"
      by (simp add: m1_def that(2) audio_selection_start_num_def number_tracks_result)
    then show ?thesis
      unfolding select_tracks_to_keep_def Let_def that(1)[symmetric]
      by (simp only: g)
  qed
  with g show ?thesis by blast
qed

theorem select_group_rejects_invalid_witness:
  "select_group [1, 2] (Map.empty, 2) [0] [''2, 5'', ''3'']
     = select_group [1, 2] (Map.empty, 2) [0] [''3'']"
proof -
  have 1: "[1, 2] \<noteq> ([] :: ref list)" by simp
  have 2: "lower (strip ''2, 5'') \<noteq> ''all''" "lower (strip ''2, 5'') \<noteq> ''none''"
    "strip ''2, 5'' \<noteq> []"
    by code_simp+
  have "invalid_token 2 (2 + int (length [1 :: ref, 2])) '' 5''" by code_simp
  moreover have "'' 5'' \<in> set (split_comma (strip ''2, 5''))" by code_simp
  ultimately have 3: "\<exists>x\<in>set (split_comma (strip ''2, 5'')).
           invalid_token 2 (2 + int (length [1 :: ref, 2])) x" by blast
  from select_group_rejects_invalid[OF 1 2 3, of Map.empty "[0]" "[''3'']", THEN conjunct1]
  show ?thesis .
qed




























subsection \<open>Track presenter: \<^verbatim>\<open>display_tracks\<close>\<close>

text \<open>
  The localised literals of the table: the defaults of the language and of the name
  (lines 64 and 66) and the two values of the default column (line 71).
\<close>

record labels =
  unknown_label :: string
  none_label :: string
  yes_label :: string
  no_label :: string

definition w_num :: nat where "w_num = 3"
definition w_type :: nat where "w_type = 10"
definition w_id :: nat where "w_id = 3"
definition w_lang :: nat where "w_lang = 5"
definition w_codec :: nat where "w_codec = 18"
definition w_name :: nat where "w_name = 30"
definition w_def :: nat where "w_def = 6"

text \<open>Lines 69 and 70.\<close>

definition codec_display :: "string \<Rightarrow> string" where
  "codec_display codec_orig =
     (if length codec_orig > w_codec then take (w_codec - 3) codec_orig @ ''...'' else codec_orig)"

definition name_display :: "string \<Rightarrow> string" where
  "name_display name_orig =
     (if length name_orig > w_name then take (w_name - 3) name_orig @ ''...'' else name_orig)"

text \<open>
  \<^verbatim>\<open>format(v, '<w')\<close> for a JSON value: a string is padded, an integer or a boolean is
  written as a number and padded, \<^verbatim>\<open>None\<close> raises \<^verbatim>\<open>TypeError\<close>.
\<close>

fun format_left :: "nat \<Rightarrow> jvalue \<Rightarrow> error + string" where
  "format_left w JNull = Inl TypeError"
| "format_left w (JBool b) = Inr (ljust w (if b then ''1'' else ''0''))"
| "format_left w (JNum n) = Inr (ljust w (str_int n))"
| "format_left w (JStr s) = Inr (ljust w s)"

text \<open>
  One pass of the loop of lines 61-76: the printed row of track \<open>i\<close>, or the
  \<^verbatim>\<open>TypeError\<close> of \<^verbatim>\<open>len\<close> on a name that is not a string or of the format
  specification on a language that is \<^verbatim>\<open>None\<close>.
\<close>

definition display_row :: "labels \<Rightarrow> nat \<Rightarrow> track \<Rightarrow> error + string" where
  "display_row lbl i track =
     (let track_type_cell = capitalize (track_type track);
          lang = (case properties track ''language'' of
                    None \<Rightarrow> JStr (unknown_label lbl) | Some v \<Rightarrow> v);
          codec_orig = codec track;
          name_orig = (case properties track ''track_name'' of
                         None \<Rightarrow> JStr (none_label lbl) | Some v \<Rightarrow> v);
          is_default = (case properties track ''default_track'' of
                          None \<Rightarrow> False | Some v \<Rightarrow> truthy v)
      in case name_orig of
           JStr name_str \<Rightarrow>
             (case format_left w_lang lang of
                Inl e \<Rightarrow> Inl e
              | Inr lang_cell \<Rightarrow>
                  Inr (ljust w_num (str_nat (i + 1)) @ '' | '' @ ljust w_type track_type_cell
                       @ '' | '' @ ljust w_id (str_int (track_id track)) @ '' | '' @ lang_cell
                       @ '' | '' @ ljust w_codec (codec_display codec_orig)
                       @ '' | '' @ ljust w_name (name_display name_str)
                       @ '' | '' @ ljust w_def (if is_default then yes_label lbl else no_label lbl)))
         | _ \<Rightarrow> Inl TypeError)"

text \<open>
  The rows \<^verbatim>\<open>display_tracks\<close> prints, in order, up to the first error. The title, the
  header, the separator and the placeholder of an empty list are constant text.
\<close>

fun display_rows :: "labels \<Rightarrow> nat \<Rightarrow> track list \<Rightarrow> error + string list" where
  "display_rows lbl i [] = Inr []"
| "display_rows lbl i (track # rest) =
     (case display_row lbl i track of
        Inl e \<Rightarrow> Inl e
      | Inr row \<Rightarrow> (case display_rows lbl (i + 1) rest of
                      Inl e \<Rightarrow> Inl e
                    | Inr rows \<Rightarrow> Inr (row # rows)))"

definition display_tracks :: "labels \<Rightarrow> track list \<Rightarrow> error + string list" where
  "display_tracks lbl tracks_data = display_rows lbl 0 tracks_data"

subsection \<open>Property editor: \<^verbatim>\<open>modify_track_properties\<close>\<close>

text \<open>
  The track dictionaries the editor mutates, by reference. Two entries of
  \<^verbatim>\<open>tracks_to_modify\<close> may be the same reference.
\<close>

type_synonym store = "ref \<Rightarrow> track"

definition set_property :: "string \<Rightarrow> jvalue \<Rightarrow> track \<Rightarrow> track" where
  "set_property k v t = t\<lparr>properties := (properties t)(k \<mapsto> v)\<rparr>"

definition del_property :: "string \<Rightarrow> track \<Rightarrow> track" where
  "del_property k t = t\<lparr>properties := (properties t)(k := None)\<rparr>"

text \<open>One pass of the loop of lines 260-263, at position \<open>i\<close> holding the reference \<open>t\<close>.\<close>

definition clear_step :: "ref \<Rightarrow> nat \<Rightarrow> store \<Rightarrow> nat \<times> ref \<Rightarrow> store" where
  "clear_step selected_track track_idx st p =
     (case p of (i, t) \<Rightarrow>
        if track_type (st t) = track_type (st selected_track) \<and> i \<noteq> track_idx
        then (if properties (st t) ''default_track'' \<noteq> None
              then st(t := set_property ''default_track'' (JBool False) (st t))
              else st)
        else st)"

text \<open>Lines 245-250: the answer to the name prompt.\<close>

definition edit_name :: "ref \<Rightarrow> string \<Rightarrow> store \<Rightarrow> store" where
  "edit_name selected_track new_name_input st =
     (if new_name_input = ''-''
      then st(selected_track := del_property ''track_name'' (st selected_track))
      else if new_name_input \<noteq> []
      then st(selected_track := set_property ''track_name'' (JStr new_name_input) (st selected_track))
      else st)"

text \<open>Lines 257-267: the answer to the default-flag prompt.\<close>

definition edit_default :: "ref list \<Rightarrow> nat \<Rightarrow> string \<Rightarrow> store \<Rightarrow> store" where
  "edit_default tracks_to_modify track_idx default_str st =
     (let selected_track = tracks_to_modify ! track_idx in
      if default_str = ''y''
      then foldl (clear_step selected_track track_idx)
             (st(selected_track := set_property ''default_track'' (JBool True) (st selected_track)))
             (enumerate 0 tracks_to_modify)
      else if default_str = ''n''
      then st(selected_track := set_property ''default_track'' (JBool False) (st selected_track))
      else st)"

text \<open>
  Lines 237-269, the part of the \<^verbatim>\<open>try\<close> block after the range check, for a valid
  \<open>track_idx\<close>. An \<^verbatim>\<open>EOFError\<close> of \<^verbatim>\<open>input\<close> is caught by \<^verbatim>\<open>except Exception\<close> and the
  main loop goes on, with what was changed so far.
\<close>

definition edit_track :: "ref list \<Rightarrow> nat \<Rightarrow> store \<Rightarrow> string list \<Rightarrow> store \<times> string list" where
  "edit_track tracks_to_modify track_idx st inputs =
     (let selected_track = tracks_to_modify ! track_idx in
      case inputs of
        [] \<Rightarrow> (st, [])
      | name_line # inputs \<Rightarrow>
          (let st = edit_name selected_track (strip name_line) st in
           if track_type (st selected_track) = ''audio''
              \<or> track_type (st selected_track) = ''subtitles''
           then (case inputs of
                   [] \<Rightarrow> (st, [])
                 | default_line # inputs \<Rightarrow>
                     (edit_default tracks_to_modify track_idx (lower (strip default_line)) st,
                      inputs))
           else (st, inputs)))"

lemma edit_track_inputs:
  "edit_track tracks_to_modify track_idx st inputs = (st', inputs') \<Longrightarrow>
     length inputs' \<le> length inputs"
  by (auto simp: edit_track_def Let_def split: list.splits if_splits)

text \<open>
  The main loop (lines 215-276). The result is how the loop ended (\<open>None\<close>: the
  user finished; \<open>Some e\<close>: the exception that left the function), the store and
  the unread input.
\<close>

function modify_loop ::
    "labels \<Rightarrow> ref list \<Rightarrow> store \<Rightarrow> string list \<Rightarrow> error option \<times> store \<times> string list" where
  "modify_loop lbl tracks_to_modify st inputs =
     (case display_tracks lbl (map st tracks_to_modify) of
        Inl e \<Rightarrow> (Some e, st, inputs)
      | Inr rows \<Rightarrow>
          (case inputs of
             [] \<Rightarrow> (Some EOFError, st, [])
           | line # inputs \<Rightarrow>
               (let track_num_str = strip line in
                if lower track_num_str = ''f'' then (None, st, inputs)
                else (case py_int track_num_str of
                        None \<Rightarrow> modify_loop lbl tracks_to_modify st inputs
                      | Some n \<Rightarrow>
                          (let track_idx = n - 1 in
                           if \<not> (0 \<le> track_idx \<and> track_idx < int (length tracks_to_modify))
                           then modify_loop lbl tracks_to_modify st inputs
                           else (case edit_track tracks_to_modify (nat track_idx) st inputs of
                                   (st', inputs') \<Rightarrow>
                                     modify_loop lbl tracks_to_modify st' inputs'))))))"
  by pat_completeness auto
termination
proof (relation "measure (\<lambda>(lbl, tracks_to_modify, st, inputs). length inputs)")
  show "wf (measure (\<lambda>(lbl, tracks_to_modify, st, inputs). length inputs))" by simp
qed (auto split: prod.splits dest!: edit_track_inputs simp: less_Suc_eq_le)

declare modify_loop.simps [simp del]

definition modify_track_properties ::
    "labels \<Rightarrow> ref list \<Rightarrow> store \<Rightarrow> string list \<Rightarrow> error option \<times> store \<times> string list" where
  "modify_track_properties lbl tracks_to_modify st inputs =
     (if tracks_to_modify = [] then (None, st, inputs)
      else (case inputs of
              [] \<Rightarrow> (Some EOFError, st, [])
            | line # inputs \<Rightarrow>
                (let initial_choice = lower (strip line) in
                 if initial_choice \<noteq> ''y'' then (None, st, inputs)
                 else modify_loop lbl tracks_to_modify st inputs)))"

definition ascii_labels :: labels where
  "ascii_labels = \<lparr>unknown_label = ''??'', none_label = ''-'', yes_label = ''Y'', no_label = ''N''\<rparr>"

definition dup_tracks :: "track list" where
  "dup_tracks =
     [\<lparr>track_id = 0, track_type = ''video'', codec = ''AVC'', properties = Map.empty\<rparr>,
      \<lparr>track_id = 1, track_type = ''audio'', codec = ''AAC'', properties = Map.empty\<rparr>]"


end
